theory Spec2Isabelle
  imports Complex_Main "HOL-Library.Sublist"
begin

section \<open>utils/retry.ts: backoff policy and retry runner\<close>

text \<open>
  JavaScript numbers that hold delays are modelled as \<^typ>\<open>real\<close> (IEEE rounding is not
  modelled); attempt indices and attempt counts are integers. \<open>Math.random()\<close> is a
  parameter: the value drawn, which the runtime takes from the interval from 0
  (inclusive) to 1 (exclusive).
\<close>

text \<open>
  \<open>calculateExponentialBackoff(attempt, baseDelay = 1000, maxDelay = 30000)\<close>, with the
  value \<open>rnd\<close> returned by \<open>Math.random()\<close> as first argument. \<open>Math.pow(2, attempt)\<close>
  on an integer is \<open>2 powi attempt\<close>.
\<close>

definition calculateExponentialBackoff :: "real \<Rightarrow> int \<Rightarrow> real \<Rightarrow> real \<Rightarrow> real" where
  "calculateExponentialBackoff rnd attempt baseDelay maxDelay =
     (let delay = min (baseDelay * 2 powi attempt) maxDelay;
          jitter = rnd * 0.1 * delay
      in delay + jitter)"

text \<open>The default arguments of the source.\<close>

definition default_baseDelay :: real where
  "default_baseDelay = 1000"

definition default_maxDelay :: real where
  "default_maxDelay = 30000"

subsection \<open>Errors and strings\<close>

text \<open>
  The error classes of utils/customErrors.ts that this part of the program throws or
  tests with \<open>instanceof\<close>. Every class extends \<open>Error\<close> and carries a message;
  \<open>ScheduledPostError\<close> also carries the post id and the retry count.
\<close>

datatype error =
    Error string
  | FacebookAPIError string
  | ScheduledPostError string string int

fun message :: "error \<Rightarrow> string" where
  "message (Error m) = m"
| "message (FacebookAPIError m) = m"
| "message (ScheduledPostError m pid rc) = m"

text \<open>
  What a rejected promise carries: an instance of \<open>Error\<close>, or any other value, of
  which only \<open>String(value)\<close> is used.
\<close>

datatype thrown = Thrown_error error | Thrown_value string

text \<open>\<open>error instanceof Error ? error : new Error(String(error))\<close>\<close>

fun as_error :: "thrown \<Rightarrow> error" where
  "as_error (Thrown_error e) = e"
| "as_error (Thrown_value s) = Error s"

text \<open>\<open>String.prototype.includes\<close>: the argument occurs as a contiguous substring.\<close>

fun str_includes :: "string \<Rightarrow> string \<Rightarrow> bool" where
  "str_includes [] sub = (sub = [])"
| "str_includes (c # cs) sub = (prefix sub (c # cs) \<or> str_includes cs sub)"

text \<open>Decimal rendering of an integer, as a template literal renders an integral number.\<close>

definition digit_char :: "nat \<Rightarrow> char" where
  "digit_char d = ''0123456789'' ! d"

function string_of_nat :: "nat \<Rightarrow> string" where
  "string_of_nat n =
     (if n < 10 then [digit_char n] else string_of_nat (n div 10) @ [digit_char (n mod 10)])"
  by pat_completeness auto
termination
  by (relation "measure (\<lambda>n. n)") auto

declare string_of_nat.simps [simp del]

definition string_of_int :: "int \<Rightarrow> string" where
  "string_of_int i =
     (if i < 0 then CHR ''-'' # string_of_nat (nat (- i)) else string_of_nat (nat i))"

subsection \<open>retryWithBackoff\<close>

text \<open>
  The operation \<open>fn\<close> is effectful: \<open>fn k\<close> is the outcome of its invocation number \<open>k\<close>
  (from 0), a thrown value or a result. \<open>rnd k\<close> is the draw number \<open>k\<close> of
  \<open>Math.random()\<close>. The loop state is the attempt index, \<open>lastError\<close>, the number of
  invocations of \<open>fn\<close> made so far and the delays slept so far; the result is the
  outcome of the promise (\<open>Inl\<close> the error it rejects with), the number of invocations
  of \<open>fn\<close> and the list of delays. Calls of the logger are left out here.
\<close>

type_synonym 'a retry_result = "(error + 'a) \<times> nat \<times> real list"

function retry_loop ::
  "(nat \<Rightarrow> thrown + 'a) \<Rightarrow> (nat \<Rightarrow> real) \<Rightarrow> int \<Rightarrow> string \<Rightarrow> real \<Rightarrow>
   int \<Rightarrow> error option \<Rightarrow> nat \<Rightarrow> real list \<Rightarrow> 'a retry_result" where
  "retry_loop fn rnd maxAttempts operationName baseDelay attempt lastError calls slept =
     (if attempt < maxAttempts then
        (let slept' =
               (if attempt > 0
                then slept @ [calculateExponentialBackoff (rnd (length slept)) (attempt - 1)
                                baseDelay default_maxDelay]
                else slept)
         in case fn calls of
              Inr v \<Rightarrow> (Inr v, Suc calls, slept')
            | Inl t \<Rightarrow>
                (let lastError' = as_error t
                 in if str_includes (message lastError') ''ENOTFOUND'' \<or>
                       str_includes (message lastError') ''ECONNREFUSED'' \<and>
                       attempt = maxAttempts - 1
                    then (Inl lastError', Suc calls, slept')
                    else retry_loop fn rnd maxAttempts operationName baseDelay
                           (attempt + 1) (Some lastError') (Suc calls) slept'))
      else (Inl (Error (operationName @ '' failed after '' @ string_of_int maxAttempts @
                        '' attempts: '' @
                        (case lastError of None \<Rightarrow> ''undefined'' | Some e \<Rightarrow> message e))),
            calls, slept))"
  by pat_completeness auto
termination
  by (relation "measure (\<lambda>(fn, rnd, maxAttempts, operationName, baseDelay, attempt, lastError,
                            calls, slept). nat (maxAttempts - attempt))") auto

declare retry_loop.simps [simp del]

definition retryWithBackoff ::
  "(nat \<Rightarrow> thrown + 'a) \<Rightarrow> (nat \<Rightarrow> real) \<Rightarrow> int \<Rightarrow> string \<Rightarrow> real \<Rightarrow> 'a retry_result" where
  "retryWithBackoff fn rnd maxAttempts operationName baseDelay =
     retry_loop fn rnd maxAttempts operationName baseDelay 0 None 0 []"

text \<open>The two tests on a message that \<open>retryWithBackoff\<close> makes.\<close>

abbreviation has_ENOTFOUND :: "thrown \<Rightarrow> bool" where
  "has_ENOTFOUND t \<equiv> str_includes (message (as_error t)) ''ENOTFOUND''"

abbreviation has_ECONNREFUSED :: "thrown \<Rightarrow> bool" where
  "has_ECONNREFUSED t \<equiv> str_includes (message (as_error t)) ''ECONNREFUSED''"

section \<open>jobs/scheduledPosts and AutopilotService.executeScheduledPost\<close>

subsection \<open>Data\<close>

datatype status = Pending | Processing | Published | Failed

text \<open>
  The JSON column \<open>metadata\<close> of a post, with the keys this code reads and writes;
  an absent key is \<open>None\<close>. Times are milliseconds as \<^typ>\<open>real\<close>; the rendering
  \<open>toISOString()\<close> of a time is not modelled.
\<close>

record metadata =
  retryCount :: "int option"
  lastError :: "string option"
  lastRetryAt :: "real option"
  finalError :: "string option"
  failedAt :: "real option"

record facebookAccount =
  pageId :: "string option"
  pageAccessToken :: "string option"

text \<open>
  Modelled from the spec: the model class \<open>ScheduledPost\<close> (models/ is not among the
  sources), with the fields of the ScheduledJob of the specification's data model, as
  the functions below read and write them. \<open>metadata\<close> is \<open>None\<close> when the column is
  null; \<open>facebookAccount\<close> is the joined account row.
\<close>

record scheduledPost =
  post_id :: string
  status :: status
  scheduledFor :: real
  metadata :: "metadata option"
  errorMessage :: "string option"
  content :: string
  publishedContentId :: "string option"
  publishedAt :: "real option"
  facebookAccount :: facebookAccount

text \<open>
  What the logger and \<open>sleep\<close> leave behind, one constructor for each call in the two
  source files, with the values that the call interpolates or attaches.
\<close>

datatype event =
    Slept real
  | Info_starting_check
  | Info_found nat
  | Error_failed_to_process string error
  | Error_job error
  | Info_processing string int
  | Info_backoff real string
  | Info_published string
  | Error_failed_to_publish string int string
  | Info_will_retry string int real
  | Error_failed_permanently string string
  | Info_executing string
  | Warn_not_pending string "status option"
  | Info_status_updated string
  | Info_publishing string string
  | Info_post_published string string
  | Error_failed_to_execute error string

text \<open>
  The state that the job runs against. \<open>table\<close> holds the rows of the posts table in
  the order in which the store yields them to a query that asks for no order.
  \<open>db_faults k\<close> tells whether the database call number \<open>k\<close> is rejected, and with
  which message; \<open>db_calls\<close> counts the database calls made. \<open>random k\<close> is the draw
  number \<open>k\<close> of \<open>Math.random()\<close> and \<open>draws\<close> counts the draws.
  \<open>publishPost\<close> is the outcome of \<open>FacebookService.publishPost\<close> for a page id, a token
  and a message: an error, or the id of the published object.
\<close>

record world =
  table :: "scheduledPost list"
  db_faults :: "nat \<Rightarrow> string option"
  db_calls :: nat
  random :: "nat \<Rightarrow> real"
  draws :: nat
  publishPost :: "string \<Rightarrow> string \<Rightarrow> string \<Rightarrow> error + string"
  clock :: real
  events :: "event list"

definition logger :: "event \<Rightarrow> world \<Rightarrow> world" where
  "logger e w = w\<lparr>events := events w @ [e]\<rparr>"

definition sleep :: "real \<Rightarrow> world \<Rightarrow> world" where
  "sleep ms w = w\<lparr>clock := clock w + ms, events := events w @ [Slept ms]\<rparr>"

definition Math_random :: "world \<Rightarrow> real \<times> world" where
  "Math_random w = (random w (draws w), w\<lparr>draws := Suc (draws w)\<rparr>)"

text \<open>\<open>calculateExponentialBackoff(attempt)\<close> with the default delays, drawing from the world.\<close>

definition backoff :: "world \<Rightarrow> int \<Rightarrow> real \<times> world" where
  "backoff w attempt =
     (case Math_random w of
        (r, w') \<Rightarrow> (calculateExponentialBackoff r attempt default_baseDelay default_maxDelay, w'))"

subsection \<open>The store\<close>

text \<open>
  Modelled from the spec: \<open>save\<close>, \<open>findByPk\<close> and \<open>findAll\<close> belong to the model class,
  which is not among the sources. \<open>save\<close> writes the whole current state of one post
  over the row with its id; \<open>findByPk\<close> reads the row with an id. Each of them is one
  database call and is rejected when \<open>db_faults\<close> says so.
\<close>

definition save :: "world \<Rightarrow> scheduledPost \<Rightarrow> (error + unit) \<times> world" where
  "save w post =
     (case db_faults w (db_calls w) of
        Some m \<Rightarrow> (Inl (Error m), w\<lparr>db_calls := Suc (db_calls w)\<rparr>)
      | None \<Rightarrow>
          (Inr (),
           w\<lparr>db_calls := Suc (db_calls w),
             table := map (\<lambda>row. if post_id row = post_id post then post else row) (table w)\<rparr>))"

definition findByPk :: "world \<Rightarrow> string \<Rightarrow> (error + scheduledPost option) \<times> world" where
  "findByPk w postId =
     (case db_faults w (db_calls w) of
        Some m \<Rightarrow> (Inl (Error m), w\<lparr>db_calls := Suc (db_calls w)\<rparr>)
      | None \<Rightarrow>
          (Inr (find (\<lambda>row. post_id row = postId) (table w)), w\<lparr>db_calls := Suc (db_calls w)\<rparr>))"

definition MAX_RETRIES :: int where
  "MAX_RETRIES = 3"

text \<open>
  The \<open>where\<close> object of the query in \<open>startScheduledPostsJob\<close>: pending, or failed with
  no metadata or with \<open>metadata.retryCount\<close> below \<open>MAX_RETRIES\<close>; and due.
\<close>

definition eligible :: "real \<Rightarrow> scheduledPost \<Rightarrow> bool" where
  "eligible now post =
     ((status post = Pending \<or>
       (status post = Failed \<and>
        (case metadata post of
           None \<Rightarrow> True
         | Some m \<Rightarrow> (case retryCount m of None \<Rightarrow> False | Some n \<Rightarrow> n < MAX_RETRIES)))) \<and>
      scheduledFor post \<le> now)"

text \<open>\<open>ScheduledPost.findAll({ where: ..., limit: 10 })\<close>: no \<open>order\<close> is given.\<close>

definition findAll :: "world \<Rightarrow> real \<Rightarrow> (error + scheduledPost list) \<times> world" where
  "findAll w now =
     (case db_faults w (db_calls w) of
        Some m \<Rightarrow> (Inl (Error m), w\<lparr>db_calls := Suc (db_calls w)\<rparr>)
      | None \<Rightarrow>
          (Inr (take 10 (filter (eligible now) (table w))), w\<lparr>db_calls := Suc (db_calls w)\<rparr>))"

subsection \<open>AutopilotService.executeScheduledPost\<close>

text \<open>\<open>post.metadata?.retryCount || 0\<close>\<close>

definition retryCount_of :: "scheduledPost \<Rightarrow> int" where
  "retryCount_of post =
     (case metadata post of
        None \<Rightarrow> 0
      | Some m \<Rightarrow> (case retryCount m of None \<Rightarrow> 0 | Some n \<Rightarrow> if n = 0 then 0 else n))"

text \<open>The \<open>catch\<close> block of \<open>executeScheduledPost\<close>.\<close>

definition executeScheduledPost_catch ::
  "world \<Rightarrow> scheduledPost \<Rightarrow> string \<Rightarrow> error \<Rightarrow> (error + scheduledPost option) \<times> world" where
  "executeScheduledPost_catch w post postId err =
     (let w1 = logger (Error_failed_to_execute err postId) w;
          post1 = post\<lparr>status := Failed, errorMessage := Some (message err)\<rparr>
      in case save w1 post1 of
           (Inl e, w2) \<Rightarrow> (Inl e, w2)
         | (Inr u, w2) \<Rightarrow>
             (case err of
                FacebookAPIError m \<Rightarrow> (Inl err, w2)
              | _ \<Rightarrow>
                  (Inl (ScheduledPostError (''Failed to execute scheduled post: '' @ message err)
                          postId (retryCount_of post1)),
                   w2)))"

text \<open>
  The \<open>try\<close> block of \<open>executeScheduledPost\<close>, entered with the post that \<open>findByPk\<close>
  returned. \<open>!account.pageId\<close> holds for a null and for an empty string.
\<close>

definition executeScheduledPost_try ::
  "world \<Rightarrow> scheduledPost \<Rightarrow> string \<Rightarrow> (error + scheduledPost option) \<times> world" where
  "executeScheduledPost_try w post postId =
     (let post1 = post\<lparr>status := Processing\<rparr>
      in case save w post1 of
           (Inl err, w1) \<Rightarrow> executeScheduledPost_catch w1 post1 postId err
         | (Inr u, w1) \<Rightarrow>
             (let w2 = logger (Info_status_updated postId) w1;
                  account = facebookAccount post1;
                  page = (case pageId account of None \<Rightarrow> [] | Some p \<Rightarrow> p);
                  token = (case pageAccessToken account of None \<Rightarrow> [] | Some t \<Rightarrow> t)
              in if page = [] \<or> token = [] then
                   executeScheduledPost_catch w2 post1 postId
                     (ScheduledPostError ''Account not properly configured'' postId
                        (retryCount_of post1))
                 else
                   (let w3 = logger (Info_publishing postId page) w2
                    in case publishPost w3 page token (content post1) of
                         Inl err \<Rightarrow> executeScheduledPost_catch w3 post1 postId err
                       | Inr result_id \<Rightarrow>
                           (let post2 = post1\<lparr>status := Published,
                                              publishedContentId := Some result_id,
                                              publishedAt := Some (clock w3)\<rparr>
                            in case save w3 post2 of
                                 (Inl err, w4) \<Rightarrow> executeScheduledPost_catch w4 post2 postId err
                               | (Inr u, w4) \<Rightarrow>
                                   (Inr (Some post2),
                                    logger (Info_post_published postId result_id) w4)))))"

definition executeScheduledPost ::
  "world \<Rightarrow> string \<Rightarrow> (error + scheduledPost option) \<times> world" where
  "executeScheduledPost w postId =
     (let w1 = logger (Info_executing postId) w
      in case findByPk w1 postId of
           (Inl err, w2) \<Rightarrow> (Inl err, w2)
         | (Inr None, w2) \<Rightarrow> (Inr None, logger (Warn_not_pending postId None) w2)
         | (Inr (Some post), w2) \<Rightarrow>
             (if status post \<noteq> Pending
              then (Inr None, logger (Warn_not_pending postId (Some (status post))) w2)
              else executeScheduledPost_try w2 post postId))"

subsection \<open>processScheduledPost\<close>

text \<open>\<open>{ ...post.metadata }\<close>: the keys of the metadata, none when it is null.\<close>

definition spread :: "metadata option \<Rightarrow> metadata" where
  "spread m =
     (case m of
        None \<Rightarrow> \<lparr>retryCount = None, lastError = None, lastRetryAt = None, finalError = None,
                 failedAt = None\<rparr>
      | Some x \<Rightarrow> x)"

text \<open>
  The \<open>try\<close> block. It returns the post object as well, which the block has mutated
  and the \<open>catch\<close> block goes on with.
\<close>

definition processScheduledPost_try ::
  "world \<Rightarrow> scheduledPost \<Rightarrow> int \<Rightarrow> (error + unit) \<times> scheduledPost \<times> world" where
  "processScheduledPost_try w post rc =
     (let w1 = (if rc > 0
                then (case backoff w (rc - 1) of
                        (delay, w') \<Rightarrow> sleep delay (logger (Info_backoff delay (post_id post)) w'))
                else w);
          post1 = post\<lparr>status := Processing\<rparr>
      in case save w1 post1 of
           (Inl err, w2) \<Rightarrow> (Inl err, post1, w2)
         | (Inr u, w2) \<Rightarrow>
             (case executeScheduledPost w2 (post_id post1) of
                (Inl err, w3) \<Rightarrow> (Inl err, post1, w3)
              | (Inr r, w3) \<Rightarrow> (Inr (), post1, logger (Info_published (post_id post1)) w3)))"

text \<open>The \<open>catch\<close> block: it always ends by throwing, the store's error or its own.\<close>

definition processScheduledPost_catch ::
  "world \<Rightarrow> scheduledPost \<Rightarrow> int \<Rightarrow> error \<Rightarrow> (error + unit) \<times> world" where
  "processScheduledPost_catch w post rc err =
     (let newRetryCount = rc + 1;
          w1 = logger (Error_failed_to_publish (post_id post) newRetryCount (message err)) w;
          (post1, w2) =
            (if newRetryCount < MAX_RETRIES then
               (let p = post\<lparr>metadata := Some ((spread (metadata post))
                                    \<lparr>retryCount := Some newRetryCount,
                                     lastError := Some (message err),
                                     lastRetryAt := Some (clock w1)\<rparr>),
                              status := Pending\<rparr>
                in case backoff w1 (newRetryCount - 1) of
                     (delay, w') \<Rightarrow> (p, logger (Info_will_retry (post_id post) newRetryCount delay) w'))
             else
               (post\<lparr>status := Failed,
                     errorMessage := Some (message err),
                     metadata := Some ((spread (metadata post))
                                    \<lparr>retryCount := Some newRetryCount,
                                     finalError := Some (message err),
                                     failedAt := Some (clock w1)\<rparr>)\<rparr>,
                logger (Error_failed_permanently (post_id post) (message err)) w1))
      in case save w2 post1 of
           (Inl e, w3) \<Rightarrow> (Inl e, w3)
         | (Inr u, w3) \<Rightarrow>
             (Inl (ScheduledPostError (''Failed to publish scheduled post: '' @ message err)
                     (post_id post1) newRetryCount),
              w3))"

definition processScheduledPost :: "world \<Rightarrow> scheduledPost \<Rightarrow> (error + unit) \<times> world" where
  "processScheduledPost w post =
     (let rc = retryCount_of post;
          w1 = logger (Info_processing (post_id post) rc) w
      in case processScheduledPost_try w1 post rc of
           (Inl err, post1, w2) \<Rightarrow> processScheduledPost_catch w2 post1 rc err
         | (Inr u, post1, w2) \<Rightarrow> (Inr (), w2))"

subsection \<open>startScheduledPostsJob: the handler that cron runs\<close>

text \<open>The \<open>for\<close> loop over the fetched posts, each in its own \<open>try\<close>/\<open>catch\<close>.\<close>

fun process_posts :: "world \<Rightarrow> scheduledPost list \<Rightarrow> world" where
  "process_posts w [] = w"
| "process_posts w (post # posts) =
     (case processScheduledPost w post of
        (Inl err, w') \<Rightarrow> process_posts (logger (Error_failed_to_process (post_id post) err) w') posts
      | (Inr u, w') \<Rightarrow> process_posts w' posts)"

text \<open>The outer \<open>try\<close> block of the handler.\<close>

definition tick_try :: "world \<Rightarrow> (error + unit) \<times> world" where
  "tick_try w =
     (let now = clock w
      in case findAll w now of
           (Inl err, w1) \<Rightarrow> (Inl err, w1)
         | (Inr posts, w1) \<Rightarrow> (Inr (), process_posts (logger (Info_found (length posts)) w1) posts))"

text \<open>
  The handler: its result is how its promise settles, \<open>Inl\<close> when an error leaves it.
\<close>

definition tick :: "world \<Rightarrow> (error + unit) \<times> world" where
  "tick w =
     (case tick_try (logger Info_starting_check w) of
        (Inl err, w1) \<Rightarrow> (Inr (), logger (Error_job err) w1)
      | (Inr u, w1) \<Rightarrow> (Inr (), w1))"

subsection \<open>What a run leaves in the log\<close>

text \<open>
  The first statement of \<open>processScheduledPost\<close> logs the post it was called with:
  \<open>processing_ids\<close> reads from a list of events the ids of the posts on which
  \<open>processScheduledPost\<close> was called, in order. \<open>quiet_ext xs ys\<close>: the events \<open>ys\<close>
  go on from \<open>xs\<close> without another such call.
\<close>

definition processing_id :: "event \<Rightarrow> string list" where
  "processing_id e = (case e of Info_processing pid rc \<Rightarrow> [pid] | _ \<Rightarrow> [])"

definition processing_ids :: "event list \<Rightarrow> string list" where
  "processing_ids es = concat (map processing_id es)"

definition quiet_ext :: "event list \<Rightarrow> event list \<Rightarrow> bool" where
  "quiet_ext xs ys = (\<exists>es. ys = xs @ es \<and> processing_ids es = [])"

section \<open>Concrete operations and draws\<close>

text \<open>Inputs on which the theorems below are run.\<close>

definition always_boom :: "nat \<Rightarrow> thrown + unit" where
  "always_boom k = Inl (Thrown_error (Error ''boom''))"

definition half :: "nat \<Rightarrow> real" where
  "half k = 1 / 2"

definition always_enotfound :: "nat \<Rightarrow> thrown + unit" where
  "always_enotfound k = Inl (Thrown_error (Error ''getaddrinfo ENOTFOUND db''))"

definition refused_then_notfound :: "nat \<Rightarrow> thrown" where
  "refused_then_notfound k =
     (if k = 0 then Thrown_error (Error ''connect ECONNREFUSED 127.0.0.1:5432'')
      else Thrown_error (Error ''getaddrinfo ENOTFOUND db''))"

definition refused_then_notfound_op :: "nat \<Rightarrow> thrown + unit" where
  "refused_then_notfound_op k = Inl (refused_then_notfound k)"

text \<open>
  Posts and worlds: an account with a page, a pending post, a post that has been
  retried, a database that rejects no call or the call number \<open>n\<close>, and a world with
  given rows and database faults, the clock at 100 and an empty log.
\<close>

definition page_account :: facebookAccount where
  "page_account = \<lparr>pageId = Some ''page-1'', pageAccessToken = Some ''token-1''\<rparr>"

definition pending_post :: "string \<Rightarrow> real \<Rightarrow> scheduledPost" where
  "pending_post pid due =
     \<lparr>post_id = pid, status = Pending, scheduledFor = due, metadata = None,
      errorMessage = None, content = ''hello'', publishedContentId = None,
      publishedAt = None, facebookAccount = page_account\<rparr>"

definition retried_post :: "string \<Rightarrow> real \<Rightarrow> status \<Rightarrow> int \<Rightarrow> scheduledPost" where
  "retried_post pid due st n =
     (pending_post pid due)
       \<lparr>status := st,
        metadata := Some \<lparr>retryCount = Some n, lastError = Some ''boom'',
                          lastRetryAt = Some 50, finalError = None, failedAt = None\<rparr>\<rparr>"

definition no_faults :: "nat \<Rightarrow> string option" where
  "no_faults k = None"

definition fault_at :: "nat \<Rightarrow> nat \<Rightarrow> string option" where
  "fault_at n k = (if k = n then Some ''connection terminated'' else None)"

definition publish_ok :: "string \<Rightarrow> string \<Rightarrow> string \<Rightarrow> error + string" where
  "publish_ok page token msg = Inr ''fb-1''"

definition world_of :: "scheduledPost list \<Rightarrow> (nat \<Rightarrow> string option) \<Rightarrow> world" where
  "world_of rows faults =
     \<lparr>table = rows, db_faults = faults, db_calls = 0, random = half, draws = 0,
      publishPost = publish_ok, clock = 100, events = []\<rparr>"

definition mixed_rows :: "scheduledPost list" where
  "mixed_rows =
     [pending_post ''a'' 5, retried_post ''t'' 0 Failed 3, pending_post ''f'' 500,
      pending_post ''b'' 3, retried_post ''r'' 1 Failed 2]"

definition three_posts :: "scheduledPost list" where
  "three_posts = [pending_post ''a'' 0, pending_post ''b'' 0, pending_post ''c'' 0]"

definition retry_input :: scheduledPost where
  "retry_input = retried_post ''p1'' 0 Pending 1"

section \<open>Properties of the backoff policy\<close>

lemma capped_nonneg:
  fixes baseDelay maxDelay :: real
  assumes "0 \<le> baseDelay" and "0 \<le> maxDelay"
  shows "0 \<le> min (baseDelay * 2 powi attempt) maxDelay"
proof -
  have "(0::real) \<le> 2 powi attempt"
    by simp
  with assms show ?thesis
    by simp
qed

lemma backoff_jitter_bounds:
  assumes "0 \<le> baseDelay" and "0 \<le> maxDelay" and "0 \<le> rnd" and "rnd < 1"
  shows "calculateExponentialBackoff rnd attempt baseDelay maxDelay =
           min (baseDelay * 2 powi attempt) maxDelay +
           rnd * 0.1 * min (baseDelay * 2 powi attempt) maxDelay"
    and "0 \<le> rnd * 0.1 * min (baseDelay * 2 powi attempt) maxDelay"
    and "rnd * 0.1 * min (baseDelay * 2 powi attempt) maxDelay
           \<le> 0.1 * min (baseDelay * 2 powi attempt) maxDelay"
    and "min (baseDelay * 2 powi attempt) maxDelay
           \<le> calculateExponentialBackoff rnd attempt baseDelay maxDelay"
proof -
  define d where "d = min (baseDelay * 2 powi attempt) maxDelay"
  have d0: "0 \<le> d"
    unfolding d_def using assms(1,2) by (rule capped_nonneg)
  have eq: "calculateExponentialBackoff rnd attempt baseDelay maxDelay = d + rnd * 0.1 * d"
    by (simp add: calculateExponentialBackoff_def Let_def d_def)
  have j0: "0 \<le> rnd * 0.1 * d"
    using d0 assms(3) by simp
  have "rnd * d \<le> d"
    using d0 assms(3,4) by (simp add: mult_left_le_one_le)
  then have j1: "rnd * 0.1 * d \<le> 0.1 * d"
    by simp
  from eq show "calculateExponentialBackoff rnd attempt baseDelay maxDelay =
           min (baseDelay * 2 powi attempt) maxDelay +
           rnd * 0.1 * min (baseDelay * 2 powi attempt) maxDelay"
    by (simp add: d_def)
  from j0 show "0 \<le> rnd * 0.1 * min (baseDelay * 2 powi attempt) maxDelay"
    by (simp add: d_def)
  from j1 show "rnd * 0.1 * min (baseDelay * 2 powi attempt) maxDelay
           \<le> 0.1 * min (baseDelay * 2 powi attempt) maxDelay"
    by (simp add: d_def)
  from eq j0 show "min (baseDelay * 2 powi attempt) maxDelay
           \<le> calculateExponentialBackoff rnd attempt baseDelay maxDelay"
    by (simp add: d_def)
qed

text \<open>
  Claim C5. The value returned is the capped exponential \<open>min (baseDelay * 2^attempt)
  maxDelay\<close> plus a jitter of \<open>rnd * 0.1\<close> times that value; for delays that are not
  negative and a draw in the range of \<open>Math.random()\<close>, the jitter lies between 0 and
  10 percent of the capped value, and the returned delay is never below the capped value.
\<close>

theorem backoff_capped_plus_jitter:
  assumes "0 \<le> baseDelay" and "0 \<le> maxDelay" and "0 \<le> rnd" and "rnd < 1"
  shows "calculateExponentialBackoff rnd attempt baseDelay maxDelay =
           min (baseDelay * 2 powi attempt) maxDelay +
           rnd * 0.1 * min (baseDelay * 2 powi attempt) maxDelay
         \<and> 0 \<le> rnd * 0.1 * min (baseDelay * 2 powi attempt) maxDelay
         \<and> rnd * 0.1 * min (baseDelay * 2 powi attempt) maxDelay
             \<le> 0.1 * min (baseDelay * 2 powi attempt) maxDelay
         \<and> min (baseDelay * 2 powi attempt) maxDelay
             \<le> calculateExponentialBackoff rnd attempt baseDelay maxDelay"
  using backoff_jitter_bounds [OF assms] by blast

theorem backoff_capped_plus_jitter_witness:
  "calculateExponentialBackoff (1/2) 2 1000 30000 = 4200
   \<and> (4000::real) \<le> calculateExponentialBackoff (1/2) 2 1000 30000"
  using backoff_capped_plus_jitter [of 1000 30000 "1/2" 2]
  by simp

text \<open>
  Claim C4, as the specification states it, fails once the cap is reached: with the
  default delays, the delay of attempt 7 is below \<open>1000 * 2^6\<close>.
\<close>

theorem backoff_uncapped_bound_fails:
  "\<not> (1000 * 2 powi 6 \<le> calculateExponentialBackoff (1/2) 7 1000 30000)"
  by (simp add: calculateExponentialBackoff_def)

text \<open>
  Claim C4, amended. For delays that are not negative and a draw in the range of
  \<open>Math.random()\<close>: for attempt indices \<open>0 \<le> a1 < a2\<close> the delay of \<open>a2\<close> is at least
  the capped exponential of \<open>a1\<close>, \<open>min (baseDelay * 2^a1) maxDelay\<close>, and the delay of
  every attempt is at most \<open>maxDelay * 1.1\<close>.
\<close>

theorem backoff_monotone_to_cap:
  assumes "0 \<le> baseDelay" and "0 \<le> maxDelay" and "0 \<le> rnd" and "rnd < 1"
    and "0 \<le> a1" and "a1 < a2"
  shows "min (baseDelay * 2 powi a1) maxDelay \<le> calculateExponentialBackoff rnd a2 baseDelay maxDelay
       \<and> calculateExponentialBackoff rnd a baseDelay maxDelay \<le> maxDelay * 1.1"
proof -
  have "(2::real) powi a1 \<le> 2 powi a2"
    using assms(6) by (intro power_int_increasing) simp_all
  then have "baseDelay * 2 powi a1 \<le> baseDelay * 2 powi a2"
    using assms(1) by (rule mult_left_mono)
  then have "min (baseDelay * 2 powi a1) maxDelay \<le> min (baseDelay * 2 powi a2) maxDelay"
    by simp
  also have "\<dots> \<le> calculateExponentialBackoff rnd a2 baseDelay maxDelay"
    using backoff_jitter_bounds [OF assms(1-4)] by simp
  finally have lower: "min (baseDelay * 2 powi a1) maxDelay
                         \<le> calculateExponentialBackoff rnd a2 baseDelay maxDelay" .
  define d where "d = min (baseDelay * 2 powi a) maxDelay"
  have d: "0 \<le> d" "d \<le> maxDelay"
    using capped_nonneg [OF assms(1,2)] by (simp_all add: d_def)
  have "rnd * d \<le> d"
    using d(1) assms(3,4) by (simp add: mult_left_le_one_le)
  then have "d + rnd * 0.1 * d \<le> d * 1.1"
    by simp
  also have "\<dots> \<le> maxDelay * 1.1"
    using d(2) by simp
  finally have "calculateExponentialBackoff rnd a baseDelay maxDelay \<le> maxDelay * 1.1"
    by (simp add: calculateExponentialBackoff_def Let_def d_def)
  with lower show ?thesis
    by simp
qed

theorem backoff_monotone_to_cap_witness:
  "(30000::real) \<le> calculateExponentialBackoff (1/2) 7 1000 30000
   \<and> calculateExponentialBackoff (1/2) 7 1000 30000 \<le> 33000"
  using backoff_monotone_to_cap [of 1000 30000 "1/2" 6 7 7]
  by simp

section \<open>Properties of the retry runner\<close>

text \<open>\<open>str_includes\<close> is the library's contiguous-sublist relation, with the arguments swapped.\<close>

lemma str_includes_sublist: "str_includes s sub = sublist sub s"
  by (induction s) (simp_all add: sublist_Cons_right)

lemma retry_loop_exit:
  assumes "\<not> attempt < maxAttempts"
  shows "retry_loop fn rnd maxAttempts operationName baseDelay attempt lastErr calls slept =
     (Inl (Error (operationName @ '' failed after '' @ string_of_int maxAttempts @
                  '' attempts: '' @
                  (case lastErr of None \<Rightarrow> ''undefined'' | Some e \<Rightarrow> message e))),
      calls, slept)"
  using assms by (subst retry_loop.simps) simp

lemma retry_loop_throw:
  assumes "attempt < maxAttempts" and "fn calls = Inl t"
    and "has_ENOTFOUND t \<or> has_ECONNREFUSED t \<and> attempt = maxAttempts - 1"
  shows "\<exists>sl. retry_loop fn rnd maxAttempts operationName baseDelay attempt lastErr calls slept =
     (Inl (as_error t), Suc calls, sl)"
  using assms by (subst retry_loop.simps) (simp add: Let_def)

lemma retry_loop_continue:
  assumes "attempt < maxAttempts" and "fn calls = Inl t"
    and "\<not> has_ENOTFOUND t" and "\<not> has_ECONNREFUSED t \<or> attempt \<noteq> maxAttempts - 1"
  shows "\<exists>sl. retry_loop fn rnd maxAttempts operationName baseDelay attempt lastErr calls slept =
     retry_loop fn rnd maxAttempts operationName baseDelay (attempt + 1) (Some (as_error t))
       (Suc calls) sl"
  using assms by (subst retry_loop.simps) (auto simp add: Let_def)

lemma retry_loop_skip:
  assumes "\<forall>k<m. fn (calls + k) = Inl (errs (calls + k)) \<and> \<not> has_ENOTFOUND (errs (calls + k))"
    and "attempt + int m < maxAttempts"
  shows "\<exists>sl lerr. retry_loop fn rnd maxAttempts operationName baseDelay attempt lastErr calls slept =
           retry_loop fn rnd maxAttempts operationName baseDelay (attempt + int m) lerr (calls + m) sl
         \<and> lerr = (if m = 0 then lastErr else Some (as_error (errs (calls + m - 1))))"
  using assms
proof (induction m arbitrary: attempt lastErr calls slept)
  case 0
  have "retry_loop fn rnd maxAttempts operationName baseDelay attempt lastErr calls slept =
        retry_loop fn rnd maxAttempts operationName baseDelay (attempt + int 0) lastErr
          (calls + 0) slept"
    by simp
  then show ?case by auto
next
  case (Suc m)
  from Suc.prems(1) have first: "fn calls = Inl (errs calls)" "\<not> has_ENOTFOUND (errs calls)"
    by (metis add.right_neutral zero_less_Suc)+
  from Suc.prems(2) have lt: "attempt < maxAttempts" "attempt \<noteq> maxAttempts - 1"
    by simp_all
  obtain sl1 where step:
    "retry_loop fn rnd maxAttempts operationName baseDelay attempt lastErr calls slept =
     retry_loop fn rnd maxAttempts operationName baseDelay (attempt + 1)
       (Some (as_error (errs calls))) (Suc calls) sl1"
    using retry_loop_continue [where fn = fn and t = "errs calls" and attempt = attempt
        and maxAttempts = maxAttempts and calls = calls] lt first by blast
  have rest: "\<forall>k<m. fn (Suc calls + k) = Inl (errs (Suc calls + k)) \<and>
                \<not> has_ENOTFOUND (errs (Suc calls + k))"
  proof (intro allI impI)
    fix k assume "k < m"
    then have "Suc k < Suc m" by simp
    with Suc.prems(1) have "fn (calls + Suc k) = Inl (errs (calls + Suc k)) \<and>
                \<not> has_ENOTFOUND (errs (calls + Suc k))" by blast
    then show "fn (Suc calls + k) = Inl (errs (Suc calls + k)) \<and>
                \<not> has_ENOTFOUND (errs (Suc calls + k))" by simp
  qed
  from Suc.prems(2) have bound: "(attempt + 1) + int m < maxAttempts"
    by simp
  obtain sl lerr where ih:
    "retry_loop fn rnd maxAttempts operationName baseDelay (attempt + 1)
       (Some (as_error (errs calls))) (Suc calls) sl1 =
     retry_loop fn rnd maxAttempts operationName baseDelay (attempt + 1 + int m) lerr
       (Suc calls + m) sl"
    "lerr = (if m = 0 then Some (as_error (errs calls))
             else Some (as_error (errs (Suc calls + m - 1))))"
    using Suc.IH [OF rest bound] by blast
  have "lerr = Some (as_error (errs (calls + Suc m - 1)))"
    using ih(2) by (cases m) simp_all
  moreover have "retry_loop fn rnd maxAttempts operationName baseDelay attempt lastErr calls slept =
     retry_loop fn rnd maxAttempts operationName baseDelay (attempt + int (Suc m)) lerr
       (calls + Suc m) sl"
    using step ih(1) by (simp add: add.assoc)
  ultimately show ?case by auto
qed

lemma retry_loop_calls_mono:
  "calls \<le> fst (snd (retry_loop fn rnd maxAttempts operationName baseDelay attempt lastErr
                         calls slept))"
proof (induction fn rnd maxAttempts operationName baseDelay attempt lastErr calls slept
       rule: retry_loop.induct)
  case (1 fn rnd maxAttempts operationName baseDelay attempt lastErr calls slept)
  show ?case
    by (subst retry_loop.simps) (auto simp add: Let_def split: sum.splits dest!: 1 [OF _ refl _ refl])
qed

lemma retry_loop_invokes:
  assumes "attempt < maxAttempts"
  shows "Suc calls \<le> fst (snd (retry_loop fn rnd maxAttempts operationName baseDelay attempt
                               lastErr calls slept))"
  using assms retry_loop_calls_mono [of "Suc calls" fn rnd maxAttempts operationName baseDelay "attempt + 1"]
  by (subst retry_loop.simps) (auto simp add: Let_def split: sum.splits)

text \<open>
  Claim C3. For \<open>n \<ge> 1\<close> and an operation whose first \<open>n\<close> invocations all fail with
  errors whose messages contain neither \<open>ENOTFOUND\<close> nor \<open>ECONNREFUSED\<close>,
  \<open>retryWithBackoff\<close> invokes the operation exactly \<open>n\<close> times and rejects with the
  error \<open>label failed after n attempts: m\<close>, where \<open>m\<close> is the message of the last error.
\<close>

theorem retry_exhaustion:
  assumes "1 \<le> n"
    and "\<forall>k<nat n. fn k = Inl (errs k) \<and> \<not> has_ENOTFOUND (errs k) \<and> \<not> has_ECONNREFUSED (errs k)"
  shows "\<exists>sl. retryWithBackoff fn rnd n label baseDelay =
           (Inl (Error (label @ '' failed after '' @ string_of_int n @ '' attempts: '' @
                        message (as_error (errs (nat n - 1))))),
            nat n, sl)"
proof -
  define m where "m = nat n - 1"
  have n: "n = int m + 1" "nat n = Suc m"
    using assms(1) by (simp_all add: m_def)
  have pre: "\<forall>k<m. fn (0 + k) = Inl (errs (0 + k)) \<and> \<not> has_ENOTFOUND (errs (0 + k))"
    using assms(2) n(2) by simp
  have "0 + int m < n"
    using n(1) by simp
  from retry_loop_skip [OF pre this, of rnd label baseDelay None "[]"]
  obtain sl1 lerr where skip:
    "retry_loop fn rnd n label baseDelay 0 None 0 [] =
     retry_loop fn rnd n label baseDelay (int m) lerr m sl1"
    by auto
  have final: "fn m = Inl (errs m)" "\<not> has_ENOTFOUND (errs m)" "\<not> has_ECONNREFUSED (errs m)"
    using assms(2) n(2) by simp_all
  have "int m < n"
    using n(1) by simp
  with final retry_loop_continue [where fn = fn and t = "errs m" and attempt = "int m"
        and maxAttempts = n and calls = m]
  obtain sl2 where step:
    "retry_loop fn rnd n label baseDelay (int m) lerr m sl1 =
     retry_loop fn rnd n label baseDelay (int m + 1) (Some (as_error (errs m))) (Suc m) sl2"
    by blast
  have "\<not> int m + 1 < n"
    using n(1) by simp
  then have "retry_loop fn rnd n label baseDelay (int m + 1) (Some (as_error (errs m))) (Suc m) sl2 =
     (Inl (Error (label @ '' failed after '' @ string_of_int n @ '' attempts: '' @
                  message (as_error (errs m)))), Suc m, sl2)"
    by (simp add: retry_loop_exit)
  with skip step show ?thesis
    by (simp add: retryWithBackoff_def n(2))
qed

theorem retry_exhaustion_witness:
  "\<exists>sl. retryWithBackoff always_boom half 3 ''Redis connection'' 1000 =
     (Inl (Error ''Redis connection failed after 3 attempts: boom''), 3, sl)"
  using retry_exhaustion [where n = 3 and fn = always_boom
      and errs = "\<lambda>k. Thrown_error (Error ''boom'')" and rnd = half
      and label = "''Redis connection''" and baseDelay = 1000]
  by (simp add: always_boom_def string_of_int_def string_of_nat.simps digit_char_def)

text \<open>
  Claim C10. With \<open>maxAttempts \<le> 0\<close> the operation is never invoked, nothing is slept,
  and the call rejects with \<open>label failed after maxAttempts attempts: undefined\<close>.
\<close>

theorem retry_nonpositive:
  assumes "maxAttempts \<le> 0"
  shows "retryWithBackoff fn rnd maxAttempts label baseDelay =
           (Inl (Error (label @ '' failed after '' @ string_of_int maxAttempts @
                        '' attempts: undefined'')), 0, [])"
  using assms by (simp add: retryWithBackoff_def retry_loop.simps)

theorem retry_nonpositive_witness:
  "retryWithBackoff always_boom half (- 2) ''Database connection'' 2000 =
     (Inl (Error ''Database connection failed after -2 attempts: undefined''), 0, [])"
  using retry_nonpositive [of "- 2" always_boom half "''Database connection''" 2000]
  by (simp add: string_of_int_def string_of_nat.simps digit_char_def)

text \<open>
  Claim C2, as the specification states it, fails: an error whose message contains
  \<open>ENOTFOUND\<close> is thrown at once on the first of five attempts, after one invocation.
\<close>

theorem retry_enotfound_first_attempt:
  "retryWithBackoff always_enotfound half 5 ''Database connection'' 2000 =
     (Inl (Error ''getaddrinfo ENOTFOUND db''), 1, [])"
  by (simp add: retryWithBackoff_def retry_loop.simps always_enotfound_def)

text \<open>
  Claim C2, amended. Let the invocations up to number \<open>j\<close> fail, \<open>j\<close> being an attempt
  of the run, with no \<open>ENOTFOUND\<close> in the messages before \<open>j\<close>. If the message of
  failure \<open>j\<close> contains \<open>ENOTFOUND\<close>, that error is thrown at once, on whatever attempt it
  occurs. If it contains \<open>ECONNREFUSED\<close> and \<open>j\<close> is the final attempt, that error is
  thrown as it is. If it does not contain \<open>ENOTFOUND\<close> and \<open>j\<close> is not the final
  attempt, the operation is invoked again.
\<close>

theorem retry_nonretriable:
  assumes "int j < maxAttempts"
    and "\<forall>k\<le>j. fn k = Inl (errs k)"
    and "\<forall>k<j. \<not> has_ENOTFOUND (errs k)"
  shows "(has_ENOTFOUND (errs j) \<longrightarrow>
            (\<exists>sl. retryWithBackoff fn rnd maxAttempts label baseDelay =
                    (Inl (as_error (errs j)), Suc j, sl)))
       \<and> (has_ECONNREFUSED (errs j) \<and> int j = maxAttempts - 1 \<longrightarrow>
            (\<exists>sl. retryWithBackoff fn rnd maxAttempts label baseDelay =
                    (Inl (as_error (errs j)), Suc j, sl)))
       \<and> (\<not> has_ENOTFOUND (errs j) \<and> int j < maxAttempts - 1 \<longrightarrow>
            Suc (Suc j) \<le> fst (snd (retryWithBackoff fn rnd maxAttempts label baseDelay)))"
proof -
  have pre: "\<forall>k<j. fn (0 + k) = Inl (errs (0 + k)) \<and> \<not> has_ENOTFOUND (errs (0 + k))"
    using assms(2,3) by simp
  have "0 + int j < maxAttempts"
    using assms(1) by simp
  from retry_loop_skip [OF pre this, of rnd label baseDelay None "[]"]
  obtain sl1 lerr where skip:
    "retryWithBackoff fn rnd maxAttempts label baseDelay =
     retry_loop fn rnd maxAttempts label baseDelay (int j) lerr j sl1"
    by (auto simp add: retryWithBackoff_def)
  have fj: "fn j = Inl (errs j)"
    using assms(2) by simp
  have throws: "\<exists>sl. retryWithBackoff fn rnd maxAttempts label baseDelay =
                    (Inl (as_error (errs j)), Suc j, sl)"
    if "has_ENOTFOUND (errs j) \<or> has_ECONNREFUSED (errs j) \<and> int j = maxAttempts - 1"
    using retry_loop_throw [where fn = fn and t = "errs j" and attempt = "int j"
        and maxAttempts = maxAttempts and calls = j and rnd = rnd and operationName = label
        and baseDelay = baseDelay and lastErr = lerr and slept = sl1] assms(1) fj that skip
    by simp
  have retried: "Suc (Suc j) \<le> fst (snd (retryWithBackoff fn rnd maxAttempts label baseDelay))"
    if "\<not> has_ENOTFOUND (errs j)" and "int j < maxAttempts - 1"
  proof -
    from that(2) have ne: "\<not> has_ECONNREFUSED (errs j) \<or> int j \<noteq> maxAttempts - 1"
      by simp
    from retry_loop_continue [where fn = fn and t = "errs j" and attempt = "int j"
        and maxAttempts = maxAttempts and calls = j, OF assms(1) fj that(1) ne]
    obtain sl2 where step:
      "retry_loop fn rnd maxAttempts label baseDelay (int j) lerr j sl1 =
       retry_loop fn rnd maxAttempts label baseDelay (int j + 1) (Some (as_error (errs j)))
         (Suc j) sl2"
      by blast
    from that(2) have "int j + 1 < maxAttempts"
      by simp
    from retry_loop_invokes [OF this] show ?thesis
      by (simp add: skip step)
  qed
  from throws retried show ?thesis
    by blast
qed

theorem retry_nonretriable_witness:
  "\<exists>sl. retryWithBackoff refused_then_notfound_op half 5 ''Database connection'' 2000 =
          (Inl (Error ''getaddrinfo ENOTFOUND db''), 2, sl)"
  using retry_nonretriable [where j = 1 and maxAttempts = 5 and fn = refused_then_notfound_op
      and errs = refused_then_notfound and rnd = half and label = "''Database connection''"
      and baseDelay = 2000]
  by (simp add: refused_then_notfound_op_def refused_then_notfound_def numeral_2_eq_2)

section \<open>Properties of the scheduled-posts job\<close>

subsection \<open>Events of a run\<close>

lemma processing_ids_append [simp]:
  "processing_ids (xs @ ys) = processing_ids xs @ processing_ids ys"
  by (simp add: processing_ids_def)

lemma quiet_ext_refl [simp]: "quiet_ext xs xs"
  by (simp add: quiet_ext_def processing_ids_def)

lemma quiet_ext_snoc:
  assumes "quiet_ext xs ys" and "processing_ids es = []"
  shows "quiet_ext xs (ys @ es)"
  using assms by (auto simp add: quiet_ext_def)

lemma quiet_ext_ids:
  assumes "quiet_ext xs ys"
  shows "processing_ids ys = processing_ids xs"
  using assms by (auto simp add: quiet_ext_def)

lemma quiet_ext_rest:
  assumes "quiet_ext xs ys"
  shows "\<exists>rest. ys = xs @ rest"
  using assms by (auto simp add: quiet_ext_def)

lemma clock_logger [simp]: "clock (logger e w) = clock w"
  by (simp add: logger_def)

lemma events_logger [simp]: "events (logger e w) = events w @ [e]"
  by (simp add: logger_def)

lemma events_sleep [simp]: "events (sleep ms w) = events w @ [Slept ms]"
  by (simp add: sleep_def)

lemma events_save [simp]: "events (snd (save w p)) = events w"
  by (simp add: save_def split: option.splits)

lemma events_findByPk [simp]: "events (snd (findByPk w pid)) = events w"
  by (simp add: findByPk_def split: option.splits)

lemma events_findAll [simp]: "events (snd (findAll w now)) = events w"
  by (simp add: findAll_def split: option.splits)

lemma events_backoff [simp]: "events (snd (backoff w a)) = events w"
  by (simp add: backoff_def Math_random_def)

lemma executeScheduledPost_catch_quiet:
  assumes "quiet_ext xs (events w)"
  shows "quiet_ext xs (events (snd (executeScheduledPost_catch w post pid err)))"
  using assms
  by (auto simp add: executeScheduledPost_catch_def Let_def split_beta processing_ids_def processing_id_def
      split: sum.splits error.splits intro!: quiet_ext_snoc)

lemma executeScheduledPost_try_quiet:
  assumes "quiet_ext xs (events w)"
  shows "quiet_ext xs (events (snd (executeScheduledPost_try w post pid)))"
  using assms
  by (auto simp add: executeScheduledPost_try_def Let_def split_beta processing_ids_def processing_id_def
      split: sum.splits intro!: quiet_ext_snoc executeScheduledPost_catch_quiet)

lemma executeScheduledPost_quiet:
  assumes "quiet_ext xs (events w)"
  shows "quiet_ext xs (events (snd (executeScheduledPost w pid)))"
  using assms
  by (auto simp add: executeScheduledPost_def Let_def split_beta processing_ids_def processing_id_def
      split: sum.splits option.splits intro!: quiet_ext_snoc executeScheduledPost_try_quiet)

lemma processScheduledPost_catch_quiet:
  assumes "quiet_ext xs (events w)"
  shows "quiet_ext xs (events (snd (processScheduledPost_catch w post rc err)))"
proof (cases "rc + 1 < MAX_RETRIES")
  case True
  with assms show ?thesis
    by (auto simp add: processScheduledPost_catch_def Let_def split_beta processing_ids_def
        processing_id_def split: sum.splits intro!: quiet_ext_snoc)
next
  case False
  with assms show ?thesis
    by (auto simp add: processScheduledPost_catch_def Let_def split_beta processing_ids_def
        processing_id_def split: sum.splits intro!: quiet_ext_snoc)
qed

lemma processScheduledPost_try_rest_quiet:
  assumes "quiet_ext xs (events w)"
  shows "quiet_ext xs (events (snd (snd
           (case save w p of
              (Inl err, w2) \<Rightarrow> (Inl err, p, w2)
            | (Inr u, w2) \<Rightarrow>
                (case executeScheduledPost w2 (post_id p) of
                   (Inl err, w3) \<Rightarrow> (Inl err, p, w3)
                 | (Inr r, w3) \<Rightarrow> (Inr (), p, logger (Info_published (post_id p)) w3))))))"
  using assms
  by (auto simp add: split_beta processing_ids_def processing_id_def
      split: sum.splits intro!: quiet_ext_snoc executeScheduledPost_quiet)

lemma processScheduledPost_try_quiet:
  assumes "quiet_ext xs (events w)"
  shows "quiet_ext xs (events (snd (snd (processScheduledPost_try w post rc))))"
  unfolding processScheduledPost_try_def Let_def
  by (rule processScheduledPost_try_rest_quiet)
     (use assms in \<open>auto simp add: split_beta processing_ids_def processing_id_def intro!: quiet_ext_snoc\<close>)

lemma processScheduledPost_quiet:
  "quiet_ext (events w @ [Info_processing (post_id post) (retryCount_of post)])
     (events (snd (processScheduledPost w post)))"
  by (auto simp add: processScheduledPost_def Let_def split_beta
      split: sum.splits intro!: processScheduledPost_catch_quiet processScheduledPost_try_quiet)

lemma processScheduledPost_ids:
  "processing_ids (events (snd (processScheduledPost w post))) =
     processing_ids (events w) @ [post_id post]"
  using quiet_ext_ids [OF processScheduledPost_quiet [of w post]]
  by (simp add: processing_ids_def processing_id_def)

lemma process_posts_ids:
  "processing_ids (events (process_posts w posts)) =
     processing_ids (events w) @ map post_id posts"
proof (induction posts arbitrary: w)
  case Nil
  show ?case by simp
next
  case (Cons post posts)
  show ?case
  proof (cases "fst (processScheduledPost w post)")
    case (Inl err)
    then have "process_posts w (post # posts) =
        process_posts (logger (Error_failed_to_process (post_id post) err)
                         (snd (processScheduledPost w post))) posts"
      by (simp add: split_beta)
    then show ?thesis
      by (simp add: Cons.IH processScheduledPost_ids)
         (simp add: processing_ids_def processing_id_def)
  next
    case (Inr u)
    then have "process_posts w (post # posts) =
        process_posts (snd (processScheduledPost w post)) posts"
      by (simp add: split_beta)
    then show ?thesis
      by (simp add: Cons.IH processScheduledPost_ids)
  qed
qed

lemmas scheduler_defs =
  processScheduledPost_def processScheduledPost_try_def processScheduledPost_catch_def
  executeScheduledPost_def executeScheduledPost_try_def executeScheduledPost_catch_def
  save_def findByPk_def findAll_def backoff_def Math_random_def logger_def sleep_def
  retryCount_of_def spread_def eligible_def MAX_RETRIES_def tick_def tick_try_def
  calculateExponentialBackoff_def default_baseDelay_def default_maxDelay_def

lemmas input_defs =
  world_of_def pending_post_def retried_post_def page_account_def no_faults_def fault_at_def
  half_def publish_ok_def

subsection \<open>The batch query\<close>

lemma eligible_only_if:
  assumes "eligible now p"
  shows "(status p = Pending \<or> status p = Failed \<and> retryCount_of p < MAX_RETRIES) \<and>
         scheduledFor p \<le> now"
  using assms
  by (auto simp add: eligible_def retryCount_of_def MAX_RETRIES_def split: option.splits)

lemma findAll_result:
  assumes "fst (findAll w now) = Inr posts"
  shows "posts = take 10 (filter (eligible now) (table w))"
  using assms by (auto simp add: findAll_def split: option.splits)

lemma findAll_mixed_rows:
  "fst (findAll (world_of mixed_rows no_faults) 100) =
     Inr [pending_post ''a'' 5, pending_post ''b'' 3, retried_post ''r'' 1 Failed 2]"
  by (simp add: findAll_def world_of_def no_faults_def mixed_rows_def eligible_def
      pending_post_def retried_post_def MAX_RETRIES_def)

text \<open>
  Claim C7. Every post that the batch query returns is pending, or failed with a retry
  count (read as the job reads it, \<open>post.metadata?.retryCount || 0\<close>) below
  \<open>MAX_RETRIES\<close>, and is due (\<open>scheduledFor \<le> now\<close>). Hence a post that is failed with
  a retry count equal to \<open>MAX_RETRIES\<close> is returned by no batch query, whatever the time
  and the state of the store.
\<close>

theorem batch_query_selects:
  assumes "fst (findAll w now) = Inr posts"
  shows "(\<forall>p\<in>set posts. (status p = Pending \<or>
                          status p = Failed \<and> retryCount_of p < MAX_RETRIES) \<and>
                         scheduledFor p \<le> now)
       \<and> (\<forall>p. status p = Failed \<and> retryCount_of p = MAX_RETRIES \<longrightarrow> p \<notin> set posts)"
proof -
  have sel: "eligible now p" if "p \<in> set posts" for p
  proof -
    from that have "p \<in> set (filter (eligible now) (table w))"
      unfolding findAll_result [OF assms] by (rule in_set_takeD)
    then show ?thesis by simp
  qed
  have "(status p = Pending \<or> status p = Failed \<and> retryCount_of p < MAX_RETRIES) \<and>
        scheduledFor p \<le> now" if "p \<in> set posts" for p
    using sel [OF that] by (rule eligible_only_if)
  moreover have "p \<notin> set posts" if "status p = Failed \<and> retryCount_of p = MAX_RETRIES" for p
  proof
    assume "p \<in> set posts"
    from eligible_only_if [OF sel [OF this]] that show False
      by simp
  qed
  ultimately show ?thesis
    by blast
qed

theorem batch_query_selects_witness:
  "retried_post ''t'' 0 Failed 3 \<in> set (table (world_of mixed_rows no_faults))
   \<and> retried_post ''t'' 0 Failed 3 \<notin>
       set [pending_post ''a'' 5, pending_post ''b'' 3, retried_post ''r'' 1 Failed 2]"
proof -
  have "status (retried_post ''t'' 0 Failed 3) = Failed \<and>
        retryCount_of (retried_post ''t'' 0 Failed 3) = MAX_RETRIES"
    by (simp add: retried_post_def retryCount_of_def MAX_RETRIES_def)
  with batch_query_selects [OF findAll_mixed_rows]
  have "retried_post ''t'' 0 Failed 3 \<notin>
       set [pending_post ''a'' 5, pending_post ''b'' 3, retried_post ''r'' 1 Failed 2]"
    by blast
  then show ?thesis
    by (simp add: world_of_def mixed_rows_def)
qed

text \<open>
  Claim C9, as the specification states it, fails: the query gives no order, and a
  store that yields a post due at 5 before a post due at 3 gets them back in that order.
\<close>

theorem batch_not_ordered:
  "fst (findAll (world_of mixed_rows no_faults) 100) =
     Inr [pending_post ''a'' 5, pending_post ''b'' 3, retried_post ''r'' 1 Failed 2]
   \<and> \<not> sorted (map scheduledFor
                  [pending_post ''a'' 5, pending_post ''b'' 3, retried_post ''r'' 1 Failed 2])"
  using findAll_mixed_rows by (simp add: pending_post_def retried_post_def)

text \<open>
  Claim C9, amended. The batch of a tick has at most 10 posts, all of them eligible, in
  the order in which the store yields them: the batch is a subsequence of the rows.
\<close>

theorem batch_bounded_store_order:
  assumes "fst (findAll w now) = Inr posts"
  shows "length posts \<le> 10 \<and> list_all (eligible now) posts \<and> subseq posts (table w)"
proof -
  note eq = findAll_result [OF assms]
  have "length posts \<le> 10"
    by (simp add: eq)
  moreover have "list_all (eligible now) posts"
    unfolding eq list_all_iff by (auto dest: in_set_takeD)
  moreover have "subseq (take 10 (filter (eligible now) (table w))) (filter (eligible now) (table w))"
    by (metis append_take_drop_id prefix_def prefix_imp_subseq)
  then have "subseq posts (table w)"
    unfolding eq using subseq_filter_left subseq_order.trans by blast
  ultimately show ?thesis
    by simp
qed

theorem batch_bounded_store_order_witness:
  "length [pending_post ''a'' 5, pending_post ''b'' 3, retried_post ''r'' 1 Failed 2] \<le> 10
   \<and> subseq [pending_post ''a'' 5, pending_post ''b'' 3, retried_post ''r'' 1 Failed 2]
        mixed_rows"
  using batch_bounded_store_order [OF findAll_mixed_rows]
  by (simp add: world_of_def)

subsection \<open>One post\<close>

lemma find_after_save:
  assumes "post_id p \<in> post_id ` set rows"
  shows "find (\<lambda>r. post_id r = post_id p)
           (map (\<lambda>row. if post_id row = post_id p then p else row) rows) = Some p"
  using assms by (induction rows) auto

text \<open>
  On the normal path the post is left in \<open>processing\<close>: when the store rejects neither
  of the next two calls and holds a row for the post, \<open>processScheduledPost\<close> returns
  normally and the stored post is the one it was given, with status \<open>processing\<close>.
\<close>

lemma processScheduledPost_normal_path:
  assumes "db_faults w (db_calls w) = None" and "db_faults w (Suc (db_calls w)) = None"
    and "post_id post \<in> post_id ` set (table w)"
  shows "fst (processScheduledPost w post) = Inr ()"
    and "find (\<lambda>r. post_id r = post_id post) (table (snd (processScheduledPost w post))) =
           Some (post\<lparr>status := Processing\<rparr>)"
proof -
  have found: "find (\<lambda>r. post_id r = post_id post)
                 (map (\<lambda>row. if post_id row = post_id post then post\<lparr>status := Processing\<rparr>
                             else row) (table w)) = Some (post\<lparr>status := Processing\<rparr>)"
    using find_after_save [of "post\<lparr>status := Processing\<rparr>" "table w"] assms(3) by simp
  show "fst (processScheduledPost w post) = Inr ()"
    using assms(1,2) found
    by (simp add: processScheduledPost_def processScheduledPost_try_def executeScheduledPost_def
        save_def findByPk_def backoff_def Math_random_def logger_def sleep_def Let_def)
  show "find (\<lambda>r. post_id r = post_id post) (table (snd (processScheduledPost w post))) =
           Some (post\<lparr>status := Processing\<rparr>)"
    using assms(1,2) found
    by (simp add: processScheduledPost_def processScheduledPost_try_def executeScheduledPost_def
        save_def findByPk_def backoff_def Math_random_def logger_def sleep_def Let_def)
qed

text \<open>
  Claim C1 fails on the code. A pending post in a store that rejects no call:
  \<open>processScheduledPost\<close> saves the status \<open>processing\<close>, \<open>executeScheduledPost\<close> finds a
  post that is not pending and returns null, the call returns normally, and the stored
  status is still \<open>processing\<close>; so it is after the whole tick, and a later batch query
  does not return the post.
\<close>

theorem processing_status_left_behind:
  "fst (processScheduledPost (world_of [pending_post ''p1'' 0] no_faults) (pending_post ''p1'' 0))
     = Inr ()
   \<and> map status (table (snd (processScheduledPost (world_of [pending_post ''p1'' 0] no_faults)
                                (pending_post ''p1'' 0))))
     = [Processing]
   \<and> map status (table (snd (tick (world_of [pending_post ''p1'' 0] no_faults)))) = [Processing]
   \<and> fst (findAll (snd (tick (world_of [pending_post ''p1'' 0] no_faults))) 1000000) = Inr []"
  by (simp add: scheduler_defs input_defs Let_def)

lemma processScheduledPost_try_post:
  "fst (snd (processScheduledPost_try w post rc)) = post\<lparr>status := Processing\<rparr>"
  by (simp add: processScheduledPost_try_def Let_def split_beta split: sum.splits)

lemma processScheduledPost_catch_retry:
  assumes "rc + 1 < MAX_RETRIES"
    and "db_faults w (db_calls w) = None"
    and "post_id post \<in> post_id ` set (table w)"
  shows "find (\<lambda>r. post_id r = post_id post)
           (table (snd (processScheduledPost_catch w post rc err))) =
         Some (post\<lparr>metadata := Some ((spread (metadata post))
                                  \<lparr>retryCount := Some (rc + 1),
                                   lastError := Some (message err),
                                   lastRetryAt := Some (clock w)\<rparr>),
                    status := Pending\<rparr>)"
proof -
  define p where "p = post\<lparr>metadata := Some ((spread (metadata post))
                                  \<lparr>retryCount := Some (rc + 1),
                                   lastError := Some (message err),
                                   lastRetryAt := Some (clock w)\<rparr>),
                    status := Pending\<rparr>"
  have id: "post_id p = post_id post"
    by (simp add: p_def)
  have "table (snd (processScheduledPost_catch w post rc err)) =
          map (\<lambda>row. if post_id row = post_id p then p else row) (table w)"
    using assms(1,2)
    by (simp add: processScheduledPost_catch_def Let_def backoff_def Math_random_def logger_def
        save_def p_def)
  moreover have "post_id p \<in> post_id ` set (table w)"
    using assms(3) id by simp
  ultimately show ?thesis
    using find_after_save [of p "table w"] by (simp add: id p_def)
qed

lemma processScheduledPost_backoff_first:
  assumes "0 < retryCount_of post"
  shows "quiet_ext
           (events w @
            [Info_processing (post_id post) (retryCount_of post),
             Info_backoff (calculateExponentialBackoff (random w (draws w))
                             (retryCount_of post - 1) default_baseDelay default_maxDelay)
               (post_id post),
             Slept (calculateExponentialBackoff (random w (draws w))
                      (retryCount_of post - 1) default_baseDelay default_maxDelay)])
           (events (snd (processScheduledPost w post)))"
proof -
  define d where "d = calculateExponentialBackoff (random w (draws w))
                        (retryCount_of post - 1) default_baseDelay default_maxDelay"
  define w1 where "w1 = logger (Info_processing (post_id post) (retryCount_of post)) w"
  define w2 where "w2 = sleep d (logger (Info_backoff d (post_id post))
                                   (snd (backoff w1 (retryCount_of post - 1))))"
  have ev: "events w2 = events w @ [Info_processing (post_id post) (retryCount_of post),
                                    Info_backoff d (post_id post), Slept d]"
    by (simp add: w2_def w1_def)
  have d: "fst (backoff w1 (retryCount_of post - 1)) = d"
    by (simp add: backoff_def Math_random_def w1_def logger_def d_def)
  have try_eq: "processScheduledPost_try w1 post (retryCount_of post) =
          (case save w2 (post\<lparr>status := Processing\<rparr>) of
              (Inl err, w3) \<Rightarrow> (Inl err, post\<lparr>status := Processing\<rparr>, w3)
            | (Inr u, w3) \<Rightarrow>
                (case executeScheduledPost w3 (post_id (post\<lparr>status := Processing\<rparr>)) of
                   (Inl err, w4) \<Rightarrow> (Inl err, post\<lparr>status := Processing\<rparr>, w4)
                 | (Inr r, w4) \<Rightarrow>
                     (Inr (), post\<lparr>status := Processing\<rparr>,
                      logger (Info_published (post_id (post\<lparr>status := Processing\<rparr>))) w4)))"
    using assms d by (simp add: processScheduledPost_try_def Let_def w2_def split_beta)
  have "quiet_ext (events w2) (events (snd (snd (processScheduledPost_try w1 post
                                                   (retryCount_of post)))))"
    unfolding try_eq by (rule processScheduledPost_try_rest_quiet) simp
  then have "quiet_ext (events w2) (events (snd (processScheduledPost w post)))"
    by (auto simp add: processScheduledPost_def Let_def split_beta w1_def
        split: sum.splits intro!: processScheduledPost_catch_quiet)
  then show ?thesis
    by (simp add: ev d_def)
qed

text \<open>
  Claim C6. Let the \<open>try\<close> block of \<open>processScheduledPost\<close> fail with \<open>err\<close>, leaving the
  world \<open>w2\<close>, with \<open>retryCount + 1 < MAX_RETRIES\<close>; let the store accept the write that
  follows and hold a row for the post. Then the stored post is pending and its metadata
  has \<open>retryCount\<close> incremented by one, \<open>lastError\<close> the message of \<open>err\<close> and
  \<open>lastRetryAt\<close> the time of the failure. And whenever \<open>retryCount > 0\<close>, the events of
  the call begin with the log of the call, the log of the delay
  \<open>calculateExponentialBackoff(retryCount - 1)\<close> and the sleep for that delay; whatever
  else the call does, and so the call of the executor, comes after.
\<close>

theorem retry_bookkeeping_and_lazy_backoff:
  fixes w :: world and post :: scheduledPost
  defines "rc \<equiv> retryCount_of post"
  defines "attempt \<equiv>
    processScheduledPost_try (logger (Info_processing (post_id post) rc) w) post rc"
  defines "w2 \<equiv> snd (snd attempt)"
  defines "delay \<equiv>
    calculateExponentialBackoff (random w (draws w)) (rc - 1) default_baseDelay default_maxDelay"
  shows
    "(fst attempt = Inl err
      \<and> rc + 1 < MAX_RETRIES
      \<and> db_faults w2 (db_calls w2) = None
      \<and> post_id post \<in> post_id ` set (table w2)
      \<longrightarrow> (\<exists>row m. find (\<lambda>r. post_id r = post_id post)
                      (table (snd (processScheduledPost w post))) = Some row
                  \<and> status row = Pending
                  \<and> metadata row = Some m
                  \<and> retryCount m = Some (rc + 1)
                  \<and> lastError m = Some (message err)
                  \<and> lastRetryAt m = Some (clock w2)))
     \<and> (0 < rc
        \<longrightarrow> (\<exists>rest. events (snd (processScheduledPost w post)) =
                     events w @
                     [Info_processing (post_id post) rc, Info_backoff delay (post_id post),
                      Slept delay] @ rest))"
proof (intro conjI impI)
  assume "fst attempt = Inl err
      \<and> rc + 1 < MAX_RETRIES
      \<and> db_faults w2 (db_calls w2) = None
      \<and> post_id post \<in> post_id ` set (table w2)"
  then have failed: "fst attempt = Inl err"
    and more: "rc + 1 < MAX_RETRIES"
    and ok: "db_faults w2 (db_calls w2) = None"
    and row: "post_id post \<in> post_id ` set (table w2)"
    by blast+
  have "fst (snd attempt) = post\<lparr>status := Processing\<rparr>"
    unfolding attempt_def by (rule processScheduledPost_try_post)
  with failed have run: "processScheduledPost w post =
          processScheduledPost_catch w2 (post\<lparr>status := Processing\<rparr>) rc err"
    by (simp add: processScheduledPost_def Let_def split_beta w2_def attempt_def rc_def)
  from row have "post_id (post\<lparr>status := Processing\<rparr>) \<in> post_id ` set (table w2)"
    by simp
  from processScheduledPost_catch_retry [OF more ok this, of err]
  show "\<exists>row m. find (\<lambda>r. post_id r = post_id post)
                    (table (snd (processScheduledPost w post))) = Some row
                \<and> status row = Pending
                \<and> metadata row = Some m
                \<and> retryCount m = Some (rc + 1)
                \<and> lastError m = Some (message err)
                \<and> lastRetryAt m = Some (clock w2)"
    by (simp add: run)
next
  assume "0 < rc"
  then have "0 < retryCount_of post"
    by (simp add: rc_def)
  from quiet_ext_rest [OF processScheduledPost_backoff_first [OF this, of w]]
  show "\<exists>rest. events (snd (processScheduledPost w post)) =
                     events w @
                     [Info_processing (post_id post) rc, Info_backoff delay (post_id post),
                      Slept delay] @ rest"
    by (simp add: rc_def delay_def)
qed

theorem retry_bookkeeping_and_lazy_backoff_witness:
  "(\<exists>row m. find (\<lambda>r. post_id r = ''p1'')
               (table (snd (processScheduledPost (world_of [retry_input] (fault_at 0))
                              retry_input))) = Some row
           \<and> status row = Pending
           \<and> metadata row = Some m
           \<and> retryCount m = Some 2
           \<and> lastError m = Some ''connection terminated''
           \<and> lastRetryAt m = Some 1150)
   \<and> (\<exists>rest. events (snd (processScheduledPost (world_of [retry_input] (fault_at 0))
                            retry_input)) =
              [Info_processing ''p1'' 1, Info_backoff 1050 ''p1'', Slept 1050] @ rest)"
proof -
  let ?w = "world_of [retry_input] (fault_at 0)"
  let ?attempt = "processScheduledPost_try
      (logger (Info_processing (post_id retry_input) (retryCount_of retry_input)) ?w)
      retry_input (retryCount_of retry_input)"
  let ?delay = "calculateExponentialBackoff (random ?w (draws ?w))
      (retryCount_of retry_input - 1) default_baseDelay default_maxDelay"
  have rc: "retryCount_of retry_input = 1" and pid: "post_id retry_input = ''p1''"
    by (simp_all add: retry_input_def retried_post_def pending_post_def retryCount_of_def)
  have failed: "fst ?attempt = Inl (Error ''connection terminated'')"
    and ok: "db_faults (snd (snd ?attempt)) (db_calls (snd (snd ?attempt))) = None"
    and row: "post_id retry_input \<in> post_id ` set (table (snd (snd ?attempt)))"
    and clock: "clock (snd (snd ?attempt)) = 1150"
    by (simp_all add: retry_input_def scheduler_defs input_defs Let_def)
  have more: "retryCount_of retry_input + 1 < MAX_RETRIES" and pos: "0 < retryCount_of retry_input"
    by (simp_all add: rc MAX_RETRIES_def)
  have delay: "?delay = 1050"
    unfolding rc
    by (simp add: calculateExponentialBackoff_def default_baseDelay_def default_maxDelay_def
        input_defs)
  have start: "events ?w = []"
    by (simp add: world_of_def)
  note run = retry_bookkeeping_and_lazy_backoff [where w = ?w and post = retry_input
      and err = "Error ''connection terminated''"]
  from run failed more ok row
  have "\<exists>row m. find (\<lambda>r. post_id r = post_id retry_input)
                  (table (snd (processScheduledPost ?w retry_input))) = Some row
              \<and> status row = Pending
              \<and> metadata row = Some m
              \<and> retryCount m = Some (retryCount_of retry_input + 1)
              \<and> lastError m = Some (message (Error ''connection terminated''))
              \<and> lastRetryAt m = Some (clock (snd (snd ?attempt)))"
    by blast
  moreover from run pos
  have "\<exists>rest. events (snd (processScheduledPost ?w retry_input)) =
               events ?w @
               [Info_processing (post_id retry_input) (retryCount_of retry_input),
                Info_backoff ?delay (post_id retry_input), Slept ?delay] @ rest"
    by blast
  ultimately show ?thesis
    unfolding clock delay start unfolding rc pid by simp
qed

subsection \<open>One tick\<close>

lemma tick_settles: "fst (tick w) = Inr ()"
  by (simp add: tick_def split_beta split: sum.splits)

lemma tick_fetch_failed:
  assumes "fst (findAll (logger Info_starting_check w) (clock w)) = Inl err"
  shows "events (snd (tick w)) = events w @ [Info_starting_check, Error_job err]"
    and "table (snd (tick w)) = table w"
proof -
  from assms have "db_faults w (db_calls w) \<noteq> None"
    by (auto simp add: findAll_def logger_def split: option.splits)
  with assms show "events (snd (tick w)) = events w @ [Info_starting_check, Error_job err]"
    and "table (snd (tick w)) = table w"
    by (auto simp add: tick_def tick_try_def findAll_def logger_def Let_def)
qed

lemma tick_fetched:
  assumes "fst (findAll (logger Info_starting_check w) (clock w)) = Inr posts"
  shows "processing_ids (events (snd (tick w))) = processing_ids (events w) @ map post_id posts"
proof -
  from assms have "snd (tick w) =
      process_posts (logger (Info_found (length posts))
                       (snd (findAll (logger Info_starting_check w) (clock w)))) posts"
    by (simp add: tick_def tick_try_def Let_def split_beta)
  then show ?thesis
    by (simp add: process_posts_ids) (simp add: processing_ids_def processing_id_def)
qed

lemma process_posts_caught:
  assumes "fst (processScheduledPost w post) = Inl err"
  shows "process_posts w (post # posts) =
           process_posts (logger (Error_failed_to_process (post_id post) err)
                            (snd (processScheduledPost w post))) posts"
  using assms by (simp add: split_beta)

text \<open>
  Claim C8. The handler never rejects. When the fetch fails, the error is logged and
  nothing else happens in the tick. When the fetch returns a batch,
  \<open>processScheduledPost\<close> is called on every post of the batch, in order, whichever of
  the calls fail. And when the call for one post fails, the loop logs the error and goes
  on with the posts that remain.
\<close>

theorem tick_isolates_failures:
  "fst (tick w) = Inr ()
   \<and> (\<forall>err. fst (findAll (logger Info_starting_check w) (clock w)) = Inl err \<longrightarrow>
          events (snd (tick w)) = events w @ [Info_starting_check, Error_job err] \<and>
          table (snd (tick w)) = table w)
   \<and> (\<forall>posts. fst (findAll (logger Info_starting_check w) (clock w)) = Inr posts \<longrightarrow>
          processing_ids (events (snd (tick w))) =
            processing_ids (events w) @ map post_id posts)
   \<and> (\<forall>post posts err. fst (processScheduledPost w post) = Inl err \<longrightarrow>
          process_posts w (post # posts) =
            process_posts (logger (Error_failed_to_process (post_id post) err)
                             (snd (processScheduledPost w post))) posts)"
  using tick_settles tick_fetch_failed tick_fetched process_posts_caught
  by blast

theorem tick_isolates_failures_witness:
  "fst (tick (world_of three_posts (fault_at 4))) = Inr ()
   \<and> Error_failed_to_process ''b''
        (ScheduledPostError ''Failed to publish scheduled post: connection terminated'' ''b'' 1)
       \<in> set (events (snd (tick (world_of three_posts (fault_at 4)))))
   \<and> processing_ids (events (snd (tick (world_of three_posts (fault_at 4))))) =
       [''a'', ''b'', ''c'']"
proof -
  have fetch: "fst (findAll (logger Info_starting_check (world_of three_posts (fault_at 4)))
                      (clock (world_of three_posts (fault_at 4)))) = Inr three_posts"
    by (simp add: scheduler_defs input_defs three_posts_def)
  have logged: "Error_failed_to_process ''b''
        (ScheduledPostError ''Failed to publish scheduled post: connection terminated'' ''b'' 1)
       \<in> set (events (snd (tick (world_of three_posts (fault_at 4)))))"
    by (simp add: scheduler_defs input_defs three_posts_def Let_def)
  from tick_isolates_failures [of "world_of three_posts (fault_at 4)"] fetch
  have "fst (tick (world_of three_posts (fault_at 4))) = Inr ()"
    and "processing_ids (events (snd (tick (world_of three_posts (fault_at 4))))) =
       processing_ids (events (world_of three_posts (fault_at 4))) @ map post_id three_posts"
    by blast+
  with logged show ?thesis
    by (simp add: world_of_def three_posts_def pending_post_def processing_ids_def)
qed

end
